theory Spec2Isabelle
  imports Main "HOL-Library.AList" "HOL-Library.Log_Nat"
begin

section \<open>Endpoint health checker: data model\<close>

text \<open>
  The embedding follows \<^verbatim>\<open>healthcheck/healthcheck.go\<close>.

  Go's \<^verbatim>\<open>int\<close> counters and \<^verbatim>\<open>time.Duration\<close> (an \<^verbatim>\<open>int64\<close> count of
  nanoseconds) are modelled by \<^typ>\<open>int\<close>. The counters move by one per probe and the
  latency sum by about a second at most per successful probe (the client gives up after
  one second), so the 64-bit range is out of reach of any run and wrap-around is not
  written out.

  A Go \<^verbatim>\<open>map[string]string\<close> of headers is the list of its entries in the order the
  \<^verbatim>\<open>range\<close> loop of this run visits them.
\<close>

record Configuration =
  Name :: string
  Url :: string
  Method :: string
  Headers :: "(string \<times> string) list"

record Availability =
  SuccessCount :: int
  FailureCount :: int
  TotalLatency :: int
  MinLatency :: int
  MaxLatency :: int

text \<open>The zero value \<^verbatim>\<open>&Availability{}\<close> that \<^verbatim>\<open>main\<close> allocates per URL.\<close>

definition zero_Availability :: Availability where
  "zero_Availability =
     \<lparr>SuccessCount = 0, FailureCount = 0, TotalLatency = 0, MinLatency = 0, MaxLatency = 0\<rparr>"

section \<open>The world outside the program\<close>

text \<open>
  \<^verbatim>\<open>http.NewRequest\<close>, \<^verbatim>\<open>client.Do\<close> and the clock are library and network
  behaviour. One probe sees one answer of each; the three answers are a parameter of
  the model. \<open>NewRequest\<close> gives the error of request construction, if any, for a
  method and a URL; \<open>Do\<close> gives the transport error or the status code of the
  response for a request; \<open>Since\<close> is what \<^verbatim>\<open>time.Since(startTime)\<close> returns.
\<close>

record http_request =
  ReqMethod :: string
  ReqUrl :: string
  ReqHeader :: "(string \<times> string) list"

datatype do_result = DoError string | DoResponse int

record world =
  NewRequest :: "string \<Rightarrow> string \<Rightarrow> string option"
  Do :: "http_request \<Rightarrow> do_result"
  Since :: int

text \<open>
  What a probe does besides updating its record: the log lines it prints (with the
  arguments of the format string, not the formatted text), the request it sends and
  the clock readings it takes, in program order.
\<close>

datatype event =
    LogErrorCreatingRequest string string
  | LogDownError string string string
  | LogCheckConnection
  | LogUp string string int int
  | LogDown string string int int
  | ClockNow
  | ClientDo http_request
  | ClockSince
  | BodyClose

section \<open>checkEndpointHealth\<close>

text \<open>Lines 71 to 74: the method defaults to GET.\<close>

definition default_method :: "Configuration \<Rightarrow> string" where
  "default_method req = (if Method req = [] then ''GET'' else Method req)"

text \<open>
  \<^verbatim>\<open>Header.Set\<close> of the Go library (line 86) stores the value under the canonical
  form of the key and replaces what was stored there. The canonical form, as
  \<^verbatim>\<open>textproto.CanonicalMIMEHeaderKey\<close> computes it: a key with a byte that is not a
  token character is kept as it is; otherwise the first letter and every letter after
  a dash are made upper case and all other letters lower case.
\<close>

definition valid_header_field_byte :: "char \<Rightarrow> bool" where
  "valid_header_field_byte c =
     (let n = (of_char c :: nat)
      in (48 \<le> n \<and> n \<le> 57) \<or> (65 \<le> n \<and> n \<le> 90) \<or> (97 \<le> n \<and> n \<le> 122) \<or>
         n \<in> set [33, 35, 36, 37, 38, 39, 42, 43, 45, 46, 94, 95, 96, 124, 126])"

fun canonicalize :: "bool \<Rightarrow> string \<Rightarrow> string" where
  "canonicalize upper [] = []"
| "canonicalize upper (c # cs) =
     (let n = (of_char c :: nat);
          c' = (if upper \<and> 97 \<le> n \<and> n \<le> 122 then char_of (n - 32)
                else if \<not> upper \<and> 65 \<le> n \<and> n \<le> 90 then char_of (n + 32)
                else c)
      in c' # canonicalize (c' = CHR ''-'') cs)"

definition CanonicalMIMEHeaderKey :: "string \<Rightarrow> string" where
  "CanonicalMIMEHeaderKey s =
     (if list_all valid_header_field_byte s then canonicalize True s else s)"

text \<open>
  Lines 77 and 85 to 87: the request carries the method, the URL and every configured
  header, set in the order of the \<^verbatim>\<open>range\<close> loop.
\<close>

definition build_request :: "Configuration \<Rightarrow> http_request" where
  "build_request req =
     fold (\<lambda>(key, value) r.
             r\<lparr>ReqHeader := AList.update (CanonicalMIMEHeaderKey key) value (ReqHeader r)\<rparr>)
       (Headers req)
       \<lparr>ReqMethod = default_method req, ReqUrl = Url req, ReqHeader = []\<rparr>"

text \<open>Lines 110 to 120: the update of the record by a probe that is UP.\<close>

definition record_success :: "int \<Rightarrow> Availability \<Rightarrow> Availability" where
  "record_success latency avail =
     (let a1 = avail\<lparr>SuccessCount := SuccessCount avail + 1\<rparr>;
          a2 = a1\<lparr>TotalLatency := TotalLatency a1 + latency\<rparr>;
          a3 = (if MinLatency a2 = 0 \<or> latency < MinLatency a2
                then a2\<lparr>MinLatency := latency\<rparr> else a2);
          a4 = (if latency > MaxLatency a3 then a3\<lparr>MaxLatency := latency\<rparr> else a3)
      in a4)"

text \<open>Lines 80, 102 and 123: \<^verbatim>\<open>avail.FailureCount++\<close>.\<close>

definition record_failure :: "Availability \<Rightarrow> Availability" where
  "record_failure avail = avail\<lparr>FailureCount := FailureCount avail + 1\<rparr>"

text \<open>
  The function returns nothing in Go and writes through the pointer \<^verbatim>\<open>avail\<close>; the
  model returns the events of the probe and the record as it is afterwards.
\<close>

definition checkEndpointHealth ::
  "Configuration \<Rightarrow> Availability \<Rightarrow> int \<Rightarrow> world \<Rightarrow> event list \<times> Availability" where
  "checkEndpointHealth req avail latencyThreshold w =
     (case NewRequest w (default_method req) (Url req) of
        Some err \<Rightarrow>
          ([LogErrorCreatingRequest (Url req) err], record_failure avail)
      | None \<Rightarrow>
          (let httpReq = build_request req;
               latency = Since w
           in case Do w httpReq of
                DoError err \<Rightarrow>
                  ([ClockNow, ClientDo httpReq, ClockSince,
                    LogDownError (Name req) (Url req) err, LogCheckConnection],
                   record_failure avail)
              | DoResponse StatusCode \<Rightarrow>
                  if StatusCode \<ge> 200 \<and> StatusCode < 300 \<and> latency < latencyThreshold
                  then ([ClockNow, ClientDo httpReq, ClockSince,
                         LogUp (Name req) (Url req) StatusCode latency, BodyClose],
                        record_success latency avail)
                  else ([ClockNow, ClientDo httpReq, ClockSince,
                         LogDown (Name req) (Url req) StatusCode latency, BodyClose],
                        record_failure avail)))"

text \<open>The outcome of a probe, read off its log line.\<close>

fun is_LogUp :: "event \<Rightarrow> bool" where
  "is_LogUp (LogUp _ _ _ _) = True"
| "is_LogUp _ = False"

definition outcome_UP :: "event list \<times> Availability \<Rightarrow> bool" where
  "outcome_UP r = list_ex is_LogUp (fst r)"

text \<open>
  The condition of the classification rule: request construction succeeds, the
  transport returns a response, its status code is in [200, 300) and the measured
  latency is strictly below the threshold.
\<close>

definition response_ok :: "Configuration \<Rightarrow> int \<Rightarrow> world \<Rightarrow> bool" where
  "response_ok req latencyThreshold w =
     (NewRequest w (default_method req) (Url req) = None \<and>
      (case Do w (build_request req) of
         DoError err \<Rightarrow> False
       | DoResponse StatusCode \<Rightarrow> 200 \<le> StatusCode \<and> StatusCode < 300) \<and>
      Since w < latencyThreshold)"

section \<open>The ledger and the probes of a run\<close>

text \<open>
  \<^verbatim>\<open>availability\<close> is a \<^verbatim>\<open>map[string]*Availability\<close>. Lines 210 to 215 allocate one
  record per distinct URL and no pointer is stored again afterwards, so a pointer is
  identified with the URL it is stored under and the ledger is a map from URLs to records.
\<close>

type_synonym ledger = "string \<rightharpoonup> Availability"

definition init_availability :: "Configuration list \<Rightarrow> ledger" where
  "init_availability requests =
     fold (\<lambda>req availability.
             if availability (Url req) = None
             then availability(Url req \<mapsto> zero_Availability) else availability)
       requests Map.empty"

text \<open>
  Reading \<^verbatim>\<open>availability[url]\<close> for a URL that is not a key gives a nil pointer, and
  the first access through it panics.
\<close>

datatype error = NilPointerDereference

text \<open>
  Lines 232 and 248, the body of one goroutine, run without another probe in between:
  \<^verbatim>\<open>checkEndpointHealth(r, availability[r.Url], *latencyThreshold)\<close>.
\<close>

definition probe :: "int \<Rightarrow> Configuration \<times> world \<Rightarrow> ledger \<Rightarrow> error + ledger" where
  "probe latencyThreshold call availability =
     (case call of (r, w) \<Rightarrow>
        (case availability (Url r) of
           None \<Rightarrow> Inl NilPointerDereference
         | Some avail \<Rightarrow>
             Inr (availability(Url r \<mapsto> snd (checkEndpointHealth r avail latencyThreshold w)))))"

text \<open>The probes of a run in the order in which they complete, each with its world.\<close>

fun run_probes :: "int \<Rightarrow> (Configuration \<times> world) list \<Rightarrow> ledger \<Rightarrow> error + ledger" where
  "run_probes latencyThreshold [] availability = Inr availability"
| "run_probes latencyThreshold (call # calls) availability =
     (case probe latencyThreshold call availability of
        Inl e \<Rightarrow> Inl e
      | Inr availability' \<Rightarrow> run_probes latencyThreshold calls availability')"

text \<open>
  Calls made through one pointer, each one complete before the next begins. This is
  what the program does for a URL as long as no cycle probes two descriptors of that
  URL (lemma \<open>run_cycles_record\<close> below); probes of one URL that overlap in time are
  the subject of the section on goroutines.
\<close>

definition record_probes ::
  "int \<Rightarrow> (Configuration \<times> world) list \<Rightarrow> Availability \<Rightarrow> Availability" where
  "record_probes latencyThreshold calls avail =
     fold (\<lambda>(r, w) a. snd (checkEndpointHealth r a latencyThreshold w)) calls avail"


section \<open>float64 arithmetic\<close>

text \<open>
  Lines 139 and 140 compute in \<^verbatim>\<open>float64\<close>. A finite float64 is a pair \<open>(m, e)\<close> that
  stands for \<open>m * 2 ^ e\<close>. Every operation computes the exact rational result and rounds
  it to 53 significant bits, ties to the even mantissa, as IEEE 754 binary64 does by
  default. Infinities, NaN and the limits of the exponent are left out: the values
  that occur below are 0 or lie between \<open>2 ^ -64\<close> and \<open>2 ^ 71\<close>.
\<close>

type_synonym f64 = "int \<times> int"

text \<open>\<open>floor_log2_ratio n d\<close> is the integer part of the binary logarithm of \<open>n / d\<close>.\<close>

definition floor_log2_ratio :: "int \<Rightarrow> int \<Rightarrow> int" where
  "floor_log2_ratio n d =
     (let k = bitlen n - bitlen d
      in if 0 \<le> k then (if d * 2 ^ nat k \<le> n then k else k - 1)
         else (if d \<le> n * 2 ^ nat (- k) then k else k - 1))"

text \<open>The float64 nearest to \<open>n / d\<close>, for \<open>0 < d\<close>.\<close>

definition f64_round_ratio :: "int \<Rightarrow> int \<Rightarrow> f64" where
  "f64_round_ratio n d =
     (if n = 0 then (0, 0)
      else let a = \<bar>n\<bar>;
               e = floor_log2_ratio a d - 52;
               num = (if e < 0 then a * 2 ^ nat (- e) else a);
               den = (if e < 0 then d else d * 2 ^ nat e);
               q = num div den;
               r = num mod den;
               m = (if 2 * r < den then q
                    else if den < 2 * r then q + 1
                    else if even q then q else q + 1)
           in (sgn n * m, e))"

definition f64_of_int :: "int \<Rightarrow> f64" where
  "f64_of_int n = f64_round_ratio n 1"

text \<open>Division by a zero divisor does not occur: line 134 returns before line 139.\<close>

definition f64_div :: "f64 \<Rightarrow> f64 \<Rightarrow> f64" where
  "f64_div x y =
     (case (x, y) of ((m1, e1), (m2, e2)) \<Rightarrow>
        (case f64_round_ratio (m1 * sgn m2) \<bar>m2\<bar> of (m, e) \<Rightarrow> (m, e + e1 - e2)))"

definition f64_mul :: "f64 \<Rightarrow> f64 \<Rightarrow> f64" where
  "f64_mul x y =
     (case (x, y) of ((m1, e1), (m2, e2)) \<Rightarrow>
        (case f64_round_ratio (m1 * m2) 1 of (m, e) \<Rightarrow> (m, e + e1 + e2)))"

definition f64_add :: "f64 \<Rightarrow> f64 \<Rightarrow> f64" where
  "f64_add x y =
     (case (x, y) of ((m1, e1), (m2, e2)) \<Rightarrow>
        (let e0 = min e1 e2
         in case f64_round_ratio (m1 * 2 ^ nat (e1 - e0) + m2 * 2 ^ nat (e2 - e0)) 1 of
              (m, e) \<Rightarrow> (m, e + e0)))"

text \<open>\<^verbatim>\<open>int(x)\<close> drops the fraction, towards zero.\<close>

definition f64_to_int :: "f64 \<Rightarrow> int" where
  "f64_to_int x =
     (case x of (m, e) \<Rightarrow>
        if 0 \<le> e then m * 2 ^ nat e else sgn m * (\<bar>m\<bar> div 2 ^ nat (- e)))"

definition f64_half :: f64 where
  "f64_half = (1, - 1)"

text \<open>The exact value of a float64, to state what the operations compute.\<close>

definition f64_value :: "f64 \<Rightarrow> rat" where
  "f64_value x =
     (case x of (m, e) \<Rightarrow>
        if 0 \<le> e then of_int (m * 2 ^ nat e) else of_int m / of_int (2 ^ nat (- e)))"

section \<open>logAvailability\<close>

text \<open>
  Lines 139, 140 and the \<^verbatim>\<open>int(percentage)\<close> of line 143: divide, multiply by 100,
  add 0.5, drop the fraction, convert back to float64 and to \<^verbatim>\<open>int\<close> again.
\<close>

definition availability_percentage :: "int \<Rightarrow> int \<Rightarrow> int" where
  "availability_percentage successCount totalCount =
     (let percentage =
            f64_mul (f64_div (f64_of_int successCount) (f64_of_int totalCount)) (f64_of_int 100);
          percentage' = f64_of_int (f64_to_int (f64_add percentage f64_half))
      in f64_to_int percentage')"

text \<open>
  The percentage of the specification: \<open>100 * successCount / totalCount\<close> rounded to a
  whole number, a half rounded up, computed exactly.
\<close>

definition round_half_up_percent :: "int \<Rightarrow> int \<Rightarrow> int" where
  "round_half_up_percent successCount totalCount =
     (200 * successCount + totalCount) div (2 * totalCount)"

text \<open>Go's integer division truncates towards zero (line 148).\<close>

definition go_div :: "int \<Rightarrow> int \<Rightarrow> int" where
  "go_div a b =
     (if (a < 0) = (b < 0) then \<bar>a\<bar> div \<bar>b\<bar> else - (\<bar>a\<bar> div \<bar>b\<bar>))"

text \<open>
  A line of the report, with the arguments of its format string. Durations are kept
  as their count of nanoseconds.
\<close>

datatype out_line =
    NoDataYet string string
  | AvailabilityPercentage string string int
  | TotalChecks int
  | SuccessfulChecks int
  | FailedChecks int
  | AverageLatency int
  | AverageLatencyNA
  | MinimumLatency int
  | MaximumLatency int
  | EmptyLine

text \<open>Lines 133 to 157: what one pass of the loop prints for a record that is there.\<close>

definition report_entry :: "Configuration \<Rightarrow> Availability \<Rightarrow> out_line list" where
  "report_entry req stats =
     (let totalCount = SuccessCount stats + FailureCount stats
      in if totalCount = 0 then [NoDataYet (Name req) (Url req)]
         else [AvailabilityPercentage (Name req) (Url req)
                 (availability_percentage (SuccessCount stats) totalCount),
               TotalChecks totalCount,
               SuccessfulChecks (SuccessCount stats),
               FailedChecks (FailureCount stats)] @
              (if SuccessCount stats > 0
               then [AverageLatency (go_div (TotalLatency stats) (SuccessCount stats))]
               else [AverageLatencyNA]) @
              (if MinLatency stats > 0 then [MinimumLatency (MinLatency stats)] else []) @
              (if MaxLatency stats > 0 then [MaximumLatency (MaxLatency stats)] else []))"

text \<open>
  The loop of line 130, with what has been printed so far and the ledger as state. A
  URL without a record gives a nil \<^verbatim>\<open>stats\<close>, and line 133 panics.
\<close>

fun report_loop ::
  "Configuration list \<Rightarrow> out_line list \<times> ledger \<Rightarrow> error + out_line list \<times> ledger" where
  "report_loop [] st = Inr st"
| "report_loop (req # requests) (printed, availability) =
     (case availability (Url req) of
        None \<Rightarrow> Inl NilPointerDereference
      | Some stats \<Rightarrow> report_loop requests (printed @ report_entry req stats, availability))"

definition logAvailability ::
  "Configuration list \<Rightarrow> ledger \<Rightarrow> error + out_line list \<times> ledger" where
  "logAvailability requests availability =
     (case report_loop requests ([], availability) of
        Inl e \<Rightarrow> Inl e
      | Inr (printed, availability') \<Rightarrow> Inr (printed @ [EmptyLine], availability'))"

text \<open>The numbers a line shows, without the name and the URL.\<close>

fun line_numbers :: "out_line \<Rightarrow> out_line" where
  "line_numbers (NoDataYet name url) = NoDataYet [] []"
| "line_numbers (AvailabilityPercentage name url p) = AvailabilityPercentage [] [] p"
| "line_numbers l = l"

fun is_AverageLatency :: "out_line \<Rightarrow> bool" where
  "is_AverageLatency (AverageLatency _) = True"
| "is_AverageLatency _ = False"

fun is_MinimumLatency :: "out_line \<Rightarrow> bool" where
  "is_MinimumLatency (MinimumLatency _) = True"
| "is_MinimumLatency _ = False"

fun is_MaximumLatency :: "out_line \<Rightarrow> bool" where
  "is_MaximumLatency (MaximumLatency _) = True"
| "is_MaximumLatency _ = False"

fun is_ClientDo :: "event \<Rightarrow> bool" where
  "is_ClientDo (ClientDo _) = True"
| "is_ClientDo _ = False"

section \<open>Probes that overlap in time\<close>

text \<open>
  Lines 229 to 234 and 245 to 250 start one goroutine per descriptor, and each calls
  \<^verbatim>\<open>checkEndpointHealth\<close> with the pointer \<^verbatim>\<open>availability[r.Url]\<close>. The program
  takes no lock and uses no atomic operation, so the reads and writes of the fields of a
  record by different goroutines can alternate. The network part of a probe touches no
  shared memory; what is left of it is the list of its field accesses.
\<close>

datatype field = SuccessCountF | FailureCountF | TotalLatencyF | MinLatencyF | MaxLatencyF

fun get_field :: "field \<Rightarrow> Availability \<Rightarrow> int" where
  "get_field SuccessCountF a = SuccessCount a"
| "get_field FailureCountF a = FailureCount a"
| "get_field TotalLatencyF a = TotalLatency a"
| "get_field MinLatencyF a = MinLatency a"
| "get_field MaxLatencyF a = MaxLatency a"

fun set_field :: "field \<Rightarrow> int \<Rightarrow> Availability \<Rightarrow> Availability" where
  "set_field SuccessCountF v a = a\<lparr>SuccessCount := v\<rparr>"
| "set_field FailureCountF v a = a\<lparr>FailureCount := v\<rparr>"
| "set_field TotalLatencyF v a = a\<lparr>TotalLatency := v\<rparr>"
| "set_field MinLatencyF v a = a\<lparr>MinLatency := v\<rparr>"
| "set_field MaxLatencyF v a = a\<lparr>MaxLatency := v\<rparr>"

text \<open>
  One access reads a field and, when the guard holds of the value read, writes the
  field with a value computed from the value read. \<^verbatim>\<open>avail.FailureCount++\<close> is the
  access with the guard that always holds and the new value \<open>v + 1\<close>.
\<close>

datatype access = Access field "int \<Rightarrow> bool" "int \<Rightarrow> int"

text \<open>Lines 110, 111, 114 to 116 and 118 to 120.\<close>

definition success_accesses :: "int \<Rightarrow> access list" where
  "success_accesses latency =
     [Access SuccessCountF (\<lambda>v. True) (\<lambda>v. v + 1),
      Access TotalLatencyF (\<lambda>v. True) (\<lambda>v. v + latency),
      Access MinLatencyF (\<lambda>v. v = 0 \<or> latency < v) (\<lambda>v. latency),
      Access MaxLatencyF (\<lambda>v. latency > v) (\<lambda>v. latency)]"

text \<open>Lines 80, 102 and 123.\<close>

definition failure_accesses :: "access list" where
  "failure_accesses = [Access FailureCountF (\<lambda>v. True) (\<lambda>v. v + 1)]"

text \<open>The accesses of a probe: those of the branch that \<^verbatim>\<open>checkEndpointHealth\<close> takes.\<close>

definition accesses_of :: "Configuration \<Rightarrow> int \<Rightarrow> world \<Rightarrow> access list" where
  "accesses_of req latencyThreshold w =
     (if outcome_UP (checkEndpointHealth req zero_Availability latencyThreshold w)
      then success_accesses (Since w) else failure_accesses)"

text \<open>An access, and a list of accesses, run with no other goroutine in between.\<close>

fun exec_access :: "access \<Rightarrow> Availability \<Rightarrow> Availability" where
  "exec_access (Access f guard new) a =
     (if guard (get_field f a) then set_field f (new (get_field f a)) a else a)"

definition exec_accesses :: "access list \<Rightarrow> Availability \<Rightarrow> Availability" where
  "exec_accesses accs a = fold exec_access accs a"

text \<open>
  A goroutine holds the URL whose record its pointer designates, the value it has
  read and not yet written back, and the accesses still to do. The shared memory gives
  the record of every URL.
\<close>

record goroutine =
  Key :: string
  Loaded :: "int option"
  Pending :: "access list"

type_synonym heap = "string \<Rightarrow> Availability"

text \<open>The goroutine of lines 230 to 233 for one descriptor and its world.\<close>

definition spawn :: "int \<Rightarrow> Configuration \<times> world \<Rightarrow> goroutine" where
  "spawn latencyThreshold call =
     (case call of (r, w) \<Rightarrow>
        \<lparr>Key = Url r, Loaded = None, Pending = accesses_of r latencyThreshold w\<rparr>)"

text \<open>
  One move of a goroutine: the read of its next access, or the write that completes
  it. A goroutine with nothing left to do does not move.
\<close>

definition step :: "goroutine \<Rightarrow> heap \<Rightarrow> goroutine \<times> heap" where
  "step g h =
     (case Pending g of
        [] \<Rightarrow> (g, h)
      | Access f guard new # rest \<Rightarrow>
          (case Loaded g of
             None \<Rightarrow> (g\<lparr>Loaded := Some (get_field f (h (Key g)))\<rparr>, h)
           | Some v \<Rightarrow>
               (g\<lparr>Loaded := None, Pending := rest\<rparr>,
                if guard v then h(Key g := set_field f (new v) (h (Key g))) else h)))"

text \<open>A schedule names the goroutine that moves next, step after step.\<close>

definition sched_step :: "nat \<Rightarrow> goroutine list \<times> heap \<Rightarrow> goroutine list \<times> heap" where
  "sched_step i st =
     (case st of (gs, h) \<Rightarrow>
        if i < length gs
        then (case step (gs ! i) h of (g', h') \<Rightarrow> (gs[i := g'], h'))
        else (gs, h))"

definition run_schedule :: "nat list \<Rightarrow> goroutine list \<times> heap \<Rightarrow> goroutine list \<times> heap" where
  "run_schedule sched st = fold sched_step sched st"

text \<open>\<^verbatim>\<open>wg.Wait()\<close> returns when every goroutine is done.\<close>

definition finished :: "goroutine list \<Rightarrow> bool" where
  "finished gs = list_all (\<lambda>g. Pending g = []) gs"

text \<open>
  For the proofs: a value read and not yet written back is still the value of the
  field, and what each goroutine has left to do leads the record of its URL to the
  result of its whole probe.
\<close>

definition consistent :: "goroutine \<Rightarrow> heap \<Rightarrow> bool" where
  "consistent g h =
     (case Loaded g of
        None \<Rightarrow> True
      | Some v \<Rightarrow>
          (case Pending g of
             [] \<Rightarrow> False
           | Access f guard new # rest \<Rightarrow> v = get_field f (h (Key g))))"

definition sched_inv :: "goroutine list \<Rightarrow> heap \<Rightarrow> goroutine list \<times> heap \<Rightarrow> bool" where
  "sched_inv gs0 h0 st =
     (case st of (gs, h) \<Rightarrow>
        length gs = length gs0 \<and>
        (\<forall>i<length gs0.
           Key (gs ! i) = Key (gs0 ! i) \<and> consistent (gs ! i) h \<and>
           exec_accesses (Pending (gs ! i)) (h (Key (gs ! i))) =
             exec_accesses (Pending (gs0 ! i)) (h0 (Key (gs0 ! i)))))"



text \<open>The calls made for a URL in the cycles of a run, in the order of the cycles.\<close>

definition calls_for ::
  "string \<Rightarrow> ((Configuration \<times> world) list \<times> nat list) list \<Rightarrow> (Configuration \<times> world) list" where
  "calls_for url cycles = filter (\<lambda>call. Url (fst call) = url) (concat (map fst cycles))"

section \<open>Fixtures\<close>

text \<open>
  Fixtures: a descriptor with no method and no headers, and three worlds in which
  request construction succeeds: status 200 after 100 ms, status 500 after 100 ms,
  and a transport error. Durations are in nanoseconds.
\<close>

definition example_req :: Configuration where
  "example_req = \<lparr>Name = ''api'', Url = ''http://a.test/health'', Method = [], Headers = []\<rparr>"

definition world_status :: "int \<Rightarrow> int \<Rightarrow> world" where
  "world_status StatusCode latency =
     \<lparr>NewRequest = (\<lambda>method url. None), Do = (\<lambda>r. DoResponse StatusCode), Since = latency\<rparr>"

definition world_transport_error :: world where
  "world_transport_error =
     \<lparr>NewRequest = (\<lambda>method url. None), Do = (\<lambda>r. DoError ''connection refused''),
      Since = 3000000\<rparr>"

definition world_bad_request :: world where
  "world_bad_request =
     \<lparr>NewRequest = (\<lambda>method url. Some ''invalid method''), Do = (\<lambda>r. DoResponse 200),
      Since = 100000000\<rparr>"

text \<open>A second descriptor for the same URL, and one cycle over both.\<close>

definition example_req_alias :: Configuration where
  "example_req_alias = \<lparr>Name = ''api-alias'', Url = ''http://a.test/health'', Method = ''HEAD'', Headers = []\<rparr>"

definition example_cycle :: "(Configuration \<times> world) list" where
  "example_cycle = [(example_req, world_status 200 100000000), (example_req_alias, world_status 500 100000000)]"



text \<open>
  Memory before the first cycle, two failing probes of one URL, and a cycle over two
  URLs.
\<close>

definition fresh_heap :: heap where
  "fresh_heap = (\<lambda>url. zero_Availability)"

definition same_url_failures :: "(Configuration \<times> world) list" where
  "same_url_failures =
     [(example_req, world_transport_error), (example_req_alias, world_status 500 100000000)]"

definition other_req :: Configuration where
  "other_req = \<lparr>Name = ''web'', Url = ''http://b.test/'', Method = ''GET'', Headers = []\<rparr>"

definition distinct_url_cycle :: "(Configuration \<times> world) list" where
  "distinct_url_cycle =
     [(example_req, world_status 200 100000000), (other_req, world_transport_error)]"









section \<open>Classification\<close>

text \<open>Header keys that differ in case only end up as one header.\<close>

lemma build_request_merges_keys:
  "ReqHeader (build_request \<lparr>Name = ''n'', Url = ''u'', Method = [],
     Headers = [(''x-api-key'', ''1''), (''X-API-Key'', ''2''), (''accept'', ''*'')]\<rparr>) =
   [(''X-Api-Key'', ''2''), (''Accept'', ''*'')]"
  by code_simp

lemma outcome_UP_iff:
  "outcome_UP (checkEndpointHealth req avail thr w) \<longleftrightarrow> response_ok req thr w"
  by (simp add: outcome_UP_def checkEndpointHealth_def response_ok_def Let_def
      split: option.split do_result.split)

lemma checkEndpointHealth_record:
  "snd (checkEndpointHealth req avail thr w) =
     (if response_ok req thr w then record_success (Since w) avail else record_failure avail)"
  by (simp add: checkEndpointHealth_def response_ok_def Let_def
      split: option.split do_result.split)

lemma record_success_counts:
  "SuccessCount (record_success l a) = SuccessCount a + 1"
  "FailureCount (record_success l a) = FailureCount a"
  by (simp_all add: record_success_def Let_def)

lemma record_failure_counts:
  "SuccessCount (record_failure a) = SuccessCount a"
  "FailureCount (record_failure a) = FailureCount a + 1"
  by (simp_all add: record_failure_def)

text \<open>
  Claim C1. A probe is UP exactly when a response is received, its status code lies in
  [200, 300) and the measured latency is strictly below the threshold; then
  \<open>SuccessCount\<close> goes up by one. Every other probe (a transport error, another status
  code, a latency at or above the threshold) is DOWN and \<open>FailureCount\<close> goes up by one.
\<close>

theorem classification_rule:
  "(outcome_UP (checkEndpointHealth req avail thr w) \<longleftrightarrow>
      (\<exists>StatusCode. NewRequest w (default_method req) (Url req) = None \<and>
         Do w (build_request req) = DoResponse StatusCode \<and>
         200 \<le> StatusCode \<and> StatusCode < 300 \<and> Since w < thr)) \<and>
   (outcome_UP (checkEndpointHealth req avail thr w) \<longrightarrow>
      SuccessCount (snd (checkEndpointHealth req avail thr w)) = SuccessCount avail + 1 \<and>
      FailureCount (snd (checkEndpointHealth req avail thr w)) = FailureCount avail) \<and>
   (\<not> outcome_UP (checkEndpointHealth req avail thr w) \<longrightarrow>
      SuccessCount (snd (checkEndpointHealth req avail thr w)) = SuccessCount avail \<and>
      FailureCount (snd (checkEndpointHealth req avail thr w)) = FailureCount avail + 1)"
proof -
  let ?r = "checkEndpointHealth req avail thr w"
  have ok: "response_ok req thr w \<longleftrightarrow>
      (\<exists>StatusCode. NewRequest w (default_method req) (Url req) = None \<and>
         Do w (build_request req) = DoResponse StatusCode \<and>
         200 \<le> StatusCode \<and> StatusCode < 300 \<and> Since w < thr)"
    by (auto simp: response_ok_def split: do_result.splits)
  have up: "outcome_UP ?r \<longleftrightarrow> response_ok req thr w"
    by (rule outcome_UP_iff)
  have a: "outcome_UP ?r \<Longrightarrow>
      SuccessCount (snd ?r) = SuccessCount avail + 1 \<and> FailureCount (snd ?r) = FailureCount avail"
    by (simp add: up checkEndpointHealth_record record_success_counts)
  have b: "\<not> outcome_UP ?r \<Longrightarrow>
      SuccessCount (snd ?r) = SuccessCount avail \<and> FailureCount (snd ?r) = FailureCount avail + 1"
    by (simp add: up checkEndpointHealth_record record_failure_counts)
  from up ok a b show ?thesis by blast
qed

theorem classification_rule_witness:
  "outcome_UP (checkEndpointHealth example_req zero_Availability 500000000
      (world_status 200 100000000)) \<and>
   SuccessCount (snd (checkEndpointHealth example_req zero_Availability 500000000
      (world_status 200 100000000))) = 1 \<and>
   \<not> outcome_UP (checkEndpointHealth example_req zero_Availability 500000000
      (world_status 200 600000000)) \<and>
   FailureCount (snd (checkEndpointHealth example_req zero_Availability 500000000
      (world_status 200 600000000))) = 1"
  using classification_rule [of example_req zero_Availability 500000000 "world_status 200 100000000"]
    classification_rule [of example_req zero_Availability 500000000 "world_status 200 600000000"]
  by (simp add: world_status_def zero_Availability_def)

section \<open>Failed probes\<close>

text \<open>
  Claim C6. A probe that is not UP (a transport error included) changes
  \<open>FailureCount\<close> only: the success count and the three latency aggregates keep
  their values.
\<close>

theorem failure_frame:
  "\<not> outcome_UP (checkEndpointHealth req avail thr w) \<Longrightarrow>
     snd (checkEndpointHealth req avail thr w) = avail\<lparr>FailureCount := FailureCount avail + 1\<rparr> \<and>
     SuccessCount (snd (checkEndpointHealth req avail thr w)) = SuccessCount avail \<and>
     TotalLatency (snd (checkEndpointHealth req avail thr w)) = TotalLatency avail \<and>
     MinLatency (snd (checkEndpointHealth req avail thr w)) = MinLatency avail \<and>
     MaxLatency (snd (checkEndpointHealth req avail thr w)) = MaxLatency avail \<and>
     FailureCount (snd (checkEndpointHealth req avail thr w)) = FailureCount avail + 1"
  by (simp add: outcome_UP_iff checkEndpointHealth_record record_failure_def)

theorem failure_frame_witness:
  "\<not> outcome_UP (checkEndpointHealth example_req
        \<lparr>SuccessCount = 3, FailureCount = 1, TotalLatency = 600, MinLatency = 100, MaxLatency = 300\<rparr>
        500000000 world_transport_error) \<and>
   snd (checkEndpointHealth example_req
        \<lparr>SuccessCount = 3, FailureCount = 1, TotalLatency = 600, MinLatency = 100, MaxLatency = 300\<rparr>
        500000000 world_transport_error) =
     \<lparr>SuccessCount = 3, FailureCount = 2, TotalLatency = 600, MinLatency = 100, MaxLatency = 300\<rparr>"
  using failure_frame [of example_req
        "\<lparr>SuccessCount = 3, FailureCount = 1, TotalLatency = 600, MinLatency = 100, MaxLatency = 300\<rparr>"
        500000000 world_transport_error]
  by (simp add: outcome_UP_iff response_ok_def world_transport_error_def)

text \<open>
  Claim C10. When \<^verbatim>\<open>http.NewRequest\<close> returns an error, the probe logs it, adds one
  to \<open>FailureCount\<close>, changes no other field, sends no request and reads no clock.
\<close>

theorem request_construction_failure:
  "NewRequest w (default_method req) (Url req) = Some err \<Longrightarrow>
     checkEndpointHealth req avail thr w =
       ([LogErrorCreatingRequest (Url req) err], avail\<lparr>FailureCount := FailureCount avail + 1\<rparr>) \<and>
     \<not> list_ex is_ClientDo (fst (checkEndpointHealth req avail thr w)) \<and>
     ClockNow \<notin> set (fst (checkEndpointHealth req avail thr w)) \<and>
     ClockSince \<notin> set (fst (checkEndpointHealth req avail thr w))"
  by (simp add: checkEndpointHealth_def record_failure_def)

theorem request_construction_failure_witness:
  "NewRequest world_bad_request (default_method example_req) (Url example_req) = Some ''invalid method'' \<and>
   checkEndpointHealth example_req zero_Availability 500000000 world_bad_request =
     ([LogErrorCreatingRequest ''http://a.test/health'' ''invalid method''],
      \<lparr>SuccessCount = 0, FailureCount = 1, TotalLatency = 0, MinLatency = 0, MaxLatency = 0\<rparr>)"
  using request_construction_failure [of world_bad_request example_req "''invalid method''"
      zero_Availability 500000000]
  by (simp add: world_bad_request_def example_req_def zero_Availability_def)

section \<open>Reporting\<close>

lemma report_loop_eq:
  "report_loop requests (printed, m) =
     (if \<forall>r\<in>set requests. m (Url r) \<noteq> None
      then Inr (printed @ concat (map (\<lambda>r. report_entry r (the (m (Url r)))) requests), m)
      else Inl NilPointerDereference)"
proof (induction requests arbitrary: printed)
  case Nil
  show ?case by simp
next
  case (Cons r requests)
  show ?case
  proof (cases "m (Url r)")
    case None
    then show ?thesis by auto
  next
    case (Some stats)
    then show ?thesis using Cons.IH [of "printed @ report_entry r stats"] by simp
  qed
qed

lemma logAvailability_eq:
  "logAvailability requests m =
     (if \<forall>r\<in>set requests. m (Url r) \<noteq> None
      then Inr (concat (map (\<lambda>r. report_entry r (the (m (Url r)))) requests) @ [EmptyLine], m)
      else Inl NilPointerDereference)"
  by (simp add: logAvailability_def report_loop_eq)

lemma line_numbers_report_entry:
  "map line_numbers (report_entry r stats) = map line_numbers (report_entry r' stats)"
  by (simp add: report_entry_def Let_def)


lemma availability_percentage_1_2: "availability_percentage 1 2 = 50"
  by code_simp





text \<open>
  Claim C9. A report leaves the ledger as it was, and a second report right after the
  first prints the same lines.
\<close>

theorem report_idempotent:
  "logAvailability requests availability = Inr (printed, availability') \<Longrightarrow>
     availability' = availability \<and>
     logAvailability requests availability' = Inr (printed, availability')"
  by (auto simp: logAvailability_eq split: if_splits)

theorem report_idempotent_witness:
  "logAvailability [example_req] [''http://a.test/health'' \<mapsto> zero_Availability] =
     Inr ([NoDataYet ''api'' ''http://a.test/health'', EmptyLine],
          [''http://a.test/health'' \<mapsto> zero_Availability])"
proof -
  have first: "logAvailability [example_req] [''http://a.test/health'' \<mapsto> zero_Availability] =
     Inr ([NoDataYet ''api'' ''http://a.test/health'', EmptyLine],
          [''http://a.test/health'' \<mapsto> zero_Availability])"
    by (simp add: logAvailability_def example_req_def report_entry_def zero_Availability_def)
  from report_idempotent [OF first] show ?thesis by simp
qed

lemma dom_fold_init:
  "dom (fold (\<lambda>req availability.
             if availability (Url req) = None
             then availability(Url req \<mapsto> zero_Availability) else availability) requests m)
     = dom m \<union> Url ` set requests"
  by (induction requests arbitrary: m) (auto split: if_splits)

lemma dom_init_availability: "dom (init_availability requests) = Url ` set requests"
  by (simp add: init_availability_def dom_fold_init)

lemma probe_dom:
  "Url (fst call) \<in> dom m \<Longrightarrow> \<exists>m'. probe thr call m = Inr m' \<and> dom m' = dom m"
  by (cases call) (auto simp: probe_def)

lemma run_probes_dom:
  "\<forall>call\<in>set calls. Url (fst call) \<in> dom m \<Longrightarrow>
     \<exists>m'. run_probes thr calls m = Inr m' \<and> dom m' = dom m"
proof (induction calls arbitrary: m)
  case Nil
  show ?case by simp
next
  case (Cons call calls)
  from Cons.prems have "Url (fst call) \<in> dom m" by simp
  then obtain m1 where m1: "probe thr call m = Inr m1" "dom m1 = dom m"
    using probe_dom by blast
  from Cons.prems m1 have "\<forall>c\<in>set calls. Url (fst c) \<in> dom m1" by simp
  from Cons.IH [OF this] obtain m' where "run_probes thr calls m1 = Inr m'" "dom m' = dom m1"
    by blast
  with m1 show ?case by simp
qed

text \<open>
  Claim C8. After any probes of configured descriptors, the report has one block per
  descriptor in the order of the descriptor list, and two descriptors with the same
  URL show the same numbers, since both blocks read the one record kept under that URL.
\<close>

theorem report_order_and_sharing:
  assumes "fst ` set calls \<subseteq> set requests"
  shows "\<exists>m. run_probes thr calls (init_availability requests) = Inr m \<and>
           logAvailability requests m =
             Inr (concat (map (\<lambda>r. report_entry r (the (m (Url r)))) requests) @ [EmptyLine], m) \<and>
           (\<forall>r1\<in>set requests. \<forall>r2\<in>set requests. Url r1 = Url r2 \<longrightarrow>
              map line_numbers (report_entry r1 (the (m (Url r1)))) =
              map line_numbers (report_entry r2 (the (m (Url r2)))))"
proof -
  from assms have "\<forall>call\<in>set calls. Url (fst call) \<in> dom (init_availability requests)"
    by (auto simp: dom_init_availability)
  from run_probes_dom [OF this] obtain m where
    m: "run_probes thr calls (init_availability requests) = Inr m"
       "dom m = dom (init_availability requests)"
    by blast
  then have "\<forall>r\<in>set requests. m (Url r) \<noteq> None"
    by (auto simp: dom_init_availability)
  then have "logAvailability requests m =
      Inr (concat (map (\<lambda>r. report_entry r (the (m (Url r)))) requests) @ [EmptyLine], m)"
    by (simp add: logAvailability_eq)
  moreover have "\<forall>r1\<in>set requests. \<forall>r2\<in>set requests. Url r1 = Url r2 \<longrightarrow>
              map line_numbers (report_entry r1 (the (m (Url r1)))) =
              map line_numbers (report_entry r2 (the (m (Url r2))))"
    using line_numbers_report_entry by metis
  ultimately show ?thesis using m(1) by blast
qed

lemma example_ledger:
  "run_probes 500000000 example_cycle (init_availability [example_req, example_req_alias]) =
     Inr [''http://a.test/health'' \<mapsto>
       \<lparr>SuccessCount = 1, FailureCount = 1, TotalLatency = 100000000,
        MinLatency = 100000000, MaxLatency = 100000000\<rparr>]"
  by (simp add: example_cycle_def init_availability_def probe_def example_req_def
      example_req_alias_def checkEndpointHealth_def default_method_def build_request_def
      world_status_def record_success_def record_failure_def zero_Availability_def Let_def)

theorem report_order_and_sharing_witness:
  "fst ` set example_cycle \<subseteq> set [example_req, example_req_alias] \<and>
   (\<exists>m. run_probes 500000000 example_cycle (init_availability [example_req, example_req_alias]) = Inr m \<and>
      logAvailability [example_req, example_req_alias] m =
        Inr ([AvailabilityPercentage ''api'' ''http://a.test/health'' 50, TotalChecks 2,
              SuccessfulChecks 1, FailedChecks 1, AverageLatency 100000000,
              MinimumLatency 100000000, MaximumLatency 100000000,
              AvailabilityPercentage ''api-alias'' ''http://a.test/health'' 50, TotalChecks 2,
              SuccessfulChecks 1, FailedChecks 1, AverageLatency 100000000,
              MinimumLatency 100000000, MaximumLatency 100000000,
              EmptyLine], m))"
proof -
  have sub: "fst ` set example_cycle \<subseteq> set [example_req, example_req_alias]"
    by (simp add: example_cycle_def)
  from report_order_and_sharing [OF sub, of 500000000] obtain m where
    m: "run_probes 500000000 example_cycle (init_availability [example_req, example_req_alias]) = Inr m"
    and out: "logAvailability [example_req, example_req_alias] m =
       Inr (concat (map (\<lambda>r. report_entry r (the (m (Url r)))) [example_req, example_req_alias])
            @ [EmptyLine], m)"
    by blast
  from m have m_eq: "m = [''http://a.test/health'' \<mapsto>
       \<lparr>SuccessCount = 1, FailureCount = 1, TotalLatency = 100000000,
        MinLatency = 100000000, MaxLatency = 100000000\<rparr>]"
    by (simp add: example_ledger)
  have "logAvailability [example_req, example_req_alias] m =
        Inr ([AvailabilityPercentage ''api'' ''http://a.test/health'' 50, TotalChecks 2,
              SuccessfulChecks 1, FailedChecks 1, AverageLatency 100000000,
              MinimumLatency 100000000, MaximumLatency 100000000,
              AvailabilityPercentage ''api-alias'' ''http://a.test/health'' 50, TotalChecks 2,
              SuccessfulChecks 1, FailedChecks 1, AverageLatency 100000000,
              MinimumLatency 100000000, MaximumLatency 100000000,
              EmptyLine], m)"
    unfolding out
    by (simp add: m_eq report_entry_def example_req_def example_req_alias_def
        availability_percentage_1_2 go_div_def)
  with sub m show ?thesis by blast
qed

section \<open>The availability percentage\<close>

text \<open>
  The float64 values of lines 139 and 140 for 23 successes out of 40: the quotient
  \<^verbatim>\<open>0x1.2666666666666p-1\<close>, the product \<^verbatim>\<open>0x1.cbfffffffffffp+5\<close> and the sum
  \<^verbatim>\<open>0x1.cffffffffffffp+5\<close>.
\<close>

lemma f64_quotient_23_40: "f64_div (f64_of_int 23) (f64_of_int 40) = (5179139571476070, - 53)"
  by code_simp

lemma f64_product_23_40:
  "f64_mul (f64_div (f64_of_int 23) (f64_of_int 40)) (f64_of_int 100) = (8092405580431359, - 47)"
  by code_simp

lemma f64_product_23_40_below_half:
  "f64_value (8092405580431359, - 47) < 115 / 2"
  by (simp add: f64_value_def)

lemma f64_sum_23_40:
  "f64_add (8092405580431359, - 47) f64_half = (8162774324609023, - 47)"
  by code_simp

lemma f64_sum_23_40_below_58: "f64_value (8162774324609023, - 47) < 58"
  by (simp add: f64_value_def)

lemma percentage_examples:
  "availability_percentage 2 3 = 67"
  "availability_percentage 1 3 = 33"
  "availability_percentage 1 2 = 50"
  "round_half_up_percent 2 3 = 67"
  "round_half_up_percent 1 3 = 33"
  "round_half_up_percent 1 2 = 50"
  by code_simp+

text \<open>
  Claim C5. The percentages named by the claim come out as stated (67, 33 and 50
  above). In general the printed percentage is not the half-up rounding of
  \<open>100 * successCount / total\<close>: after 23 probes that are UP and 17 that are DOWN the
  exact value is 57.5, the float64 product of line 139 is just below it, and the
  report shows 57 where half-up rounding gives 58.
\<close>

theorem percentage_tie_rounds_down:
  "record_probes 500000000
     (replicate 23 (example_req, world_status 200 100000000) @
      replicate 17 (example_req, world_transport_error)) zero_Availability =
     \<lparr>SuccessCount = 23, FailureCount = 17, TotalLatency = 2300000000,
      MinLatency = 100000000, MaxLatency = 100000000\<rparr> \<and>
   report_entry example_req
     \<lparr>SuccessCount = 23, FailureCount = 17, TotalLatency = 2300000000,
      MinLatency = 100000000, MaxLatency = 100000000\<rparr> =
     [AvailabilityPercentage ''api'' ''http://a.test/health'' 57, TotalChecks 40,
      SuccessfulChecks 23, FailedChecks 17, AverageLatency 100000000,
      MinimumLatency 100000000, MaximumLatency 100000000] \<and>
   availability_percentage 23 40 = 57 \<and>
   round_half_up_percent 23 40 = 58"
proof -
  have a: "availability_percentage 23 40 = 57" by code_simp
  have b: "round_half_up_percent 23 40 = 58" by code_simp
  have c: "record_probes 500000000
     (replicate 23 (example_req, world_status 200 100000000) @
      replicate 17 (example_req, world_transport_error)) zero_Availability =
     \<lparr>SuccessCount = 23, FailureCount = 17, TotalLatency = 2300000000,
      MinLatency = 100000000, MaxLatency = 100000000\<rparr>"
    by code_simp
  have d: "report_entry example_req
     \<lparr>SuccessCount = 23, FailureCount = 17, TotalLatency = 2300000000,
      MinLatency = 100000000, MaxLatency = 100000000\<rparr> =
     [AvailabilityPercentage ''api'' ''http://a.test/health'' 57, TotalChecks 40,
      SuccessfulChecks 23, FailedChecks 17, AverageLatency 100000000,
      MinimumLatency 100000000, MaximumLatency 100000000]"
    by (simp add: report_entry_def example_req_def a go_div_def)
  from a b c d show ?thesis by blast
qed

section \<open>Concurrent updates of the ledger\<close>

lemma exec_success_accesses:
  "exec_accesses (success_accesses l) a = record_success l a"
  by (simp add: exec_accesses_def success_accesses_def record_success_def Let_def)

lemma exec_failure_accesses:
  "exec_accesses failure_accesses a = record_failure a"
  by (simp add: exec_accesses_def failure_accesses_def record_failure_def)

lemma exec_accesses_of:
  "exec_accesses (accesses_of req thr w) a = snd (checkEndpointHealth req a thr w)"
  by (simp add: accesses_of_def outcome_UP_iff checkEndpointHealth_record
      exec_success_accesses exec_failure_accesses)

lemma step_props:
  assumes "consistent g h" and "step g h = (g', h')"
  shows "Key g' = Key g" and "consistent g' h'"
    and "exec_accesses (Pending g') (h' (Key g)) = exec_accesses (Pending g) (h (Key g))"
    and "k \<noteq> Key g \<Longrightarrow> h' k = h k"
  using assms
  by (auto simp: step_def consistent_def exec_accesses_def
      split: list.splits access.splits option.splits if_splits)

lemma consistent_other:
  "consistent g h \<Longrightarrow> h' (Key g) = h (Key g) \<Longrightarrow> consistent g h'"
  by (auto simp: consistent_def split: option.splits list.splits access.splits)

lemma sched_step_inv:
  assumes d: "distinct (map Key gs0)" and inv: "sched_inv gs0 h0 st"
  shows "sched_inv gs0 h0 (sched_step i st)"
proof -
  obtain gs h where st: "st = (gs, h)" by (cases st)
  from inv have len: "length gs = length gs0"
    and all: "\<And>j. j < length gs0 \<Longrightarrow>
           Key (gs ! j) = Key (gs0 ! j) \<and> consistent (gs ! j) h \<and>
           exec_accesses (Pending (gs ! j)) (h (Key (gs ! j))) =
             exec_accesses (Pending (gs0 ! j)) (h0 (Key (gs0 ! j)))"
    by (auto simp: sched_inv_def st)
  show ?thesis
  proof (cases "i < length gs")
    case False
    with inv show ?thesis by (simp add: sched_step_def st)
  next
    case True
    obtain g' h' where s: "step (gs ! i) h = (g', h')" by (cases "step (gs ! i) h")
    from True len have i: "i < length gs0" by simp
    from all [OF i] have ci: "consistent (gs ! i) h" by simp
    note p = step_props [OF ci s]
    have new: "Key (gs[i := g'] ! j) = Key (gs0 ! j) \<and> consistent (gs[i := g'] ! j) h' \<and>
           exec_accesses (Pending (gs[i := g'] ! j)) (h' (Key (gs[i := g'] ! j))) =
             exec_accesses (Pending (gs0 ! j)) (h0 (Key (gs0 ! j)))"
      if j: "j < length gs0" for j
    proof (cases "j = i")
      case True
      from all [OF i] have ki: "Key (gs ! i) = Key (gs0 ! i)"
        and ei: "exec_accesses (Pending (gs ! i)) (h (Key (gs ! i))) =
             exec_accesses (Pending (gs0 ! i)) (h0 (Key (gs0 ! i)))"
        by blast+
      from p(1-3) ki ei len i True show ?thesis by simp
    next
      case False
      from d j i False have "Key (gs0 ! j) \<noteq> Key (gs0 ! i)"
        by (simp add: distinct_conv_nth)
      with all [OF j] all [OF i] have ne: "Key (gs ! j) \<noteq> Key (gs ! i)" by simp
      from p(4) [OF ne] have same: "h' (Key (gs ! j)) = h (Key (gs ! j))" .
      from all [OF j] have cj: "consistent (gs ! j) h"
        and kj: "Key (gs ! j) = Key (gs0 ! j)"
        and ej: "exec_accesses (Pending (gs ! j)) (h (Key (gs ! j))) =
             exec_accesses (Pending (gs0 ! j)) (h0 (Key (gs0 ! j)))"
        by blast+
      from cj same have "consistent (gs ! j) h'"
        by (rule consistent_other)
      with kj ej same False show ?thesis by simp
    qed
    have K: "Key (gs[i := g'] ! j) = Key (gs0 ! j)" if "j < length gs0" for j
      using new [OF that] by blast
    have C: "consistent (gs[i := g'] ! j) h'" if "j < length gs0" for j
      using new [OF that] by blast
    have E: "exec_accesses (Pending (gs[i := g'] ! j)) (h' (Key (gs0 ! j))) =
             exec_accesses (Pending (gs0 ! j)) (h0 (Key (gs0 ! j)))" if "j < length gs0" for j
      using new [OF that] by auto
    from len True s show ?thesis
      by (simp add: sched_step_def st sched_inv_def K C E)
  qed
qed

lemma run_schedule_inv:
  "distinct (map Key gs0) \<Longrightarrow> sched_inv gs0 h0 st \<Longrightarrow> sched_inv gs0 h0 (run_schedule sched st)"
  unfolding run_schedule_def
  by (induction sched arbitrary: st) (simp_all add: sched_step_inv)

lemma sched_inv_init:
  "\<forall>g\<in>set gs0. Loaded g = None \<Longrightarrow> sched_inv gs0 h0 (gs0, h0)"
  by (simp add: sched_inv_def consistent_def)

lemma run_schedule_distinct:
  assumes "distinct (map Key gs0)" and "\<forall>g\<in>set gs0. Loaded g = None"
    and "run_schedule sched (gs0, h0) = (gs, h)" and "finished gs" and "i < length gs0"
  shows "h (Key (gs0 ! i)) = exec_accesses (Pending (gs0 ! i)) (h0 (Key (gs0 ! i)))"
proof -
  from run_schedule_inv [OF assms(1) sched_inv_init [OF assms(2)], of h0 sched] assms(3)
  have inv: "sched_inv gs0 h0 (gs, h)" by simp
  with assms(5) have len: "length gs = length gs0" and k: "Key (gs ! i) = Key (gs0 ! i)"
    and e: "exec_accesses (Pending (gs ! i)) (h (Key (gs ! i))) =
             exec_accesses (Pending (gs0 ! i)) (h0 (Key (gs0 ! i)))"
    by (auto simp: sched_inv_def)
  from assms(4,5) len have "Pending (gs ! i) = []"
    by (simp add: finished_def list_all_length)
  with e k show ?thesis by (simp add: exec_accesses_def)
qed

lemma schedule_distinct_urls:
  assumes "distinct (map (\<lambda>call. Url (fst call)) calls)"
    and "finished (fst (run_schedule sched (map (spawn thr) calls, h0)))"
    and "call \<in> set calls"
  shows "snd (run_schedule sched (map (spawn thr) calls, h0)) (Url (fst call)) =
             snd (checkEndpointHealth (fst call) (h0 (Url (fst call))) thr (snd call))"
proof -
  from assms(3) obtain i where i: "i < length calls" and c: "calls ! i = call"
    by (auto simp: in_set_conv_nth)
  let ?gs0 = "map (spawn thr) calls"
  obtain gs h where r: "run_schedule sched (?gs0, h0) = (gs, h)"
    by (cases "run_schedule sched (?gs0, h0)")
  have key: "Key (spawn thr x) = Url (fst x)" for x
    by (cases x) (simp add: spawn_def)
  have d: "distinct (map Key ?gs0)"
    using assms(1) by (simp add: comp_def key)
  have l: "\<forall>g\<in>set ?gs0. Loaded g = None"
    by (auto simp: spawn_def split: prod.splits)
  from assms(2) r have f: "finished gs" by simp
  from i have i': "i < length ?gs0" by simp
  from run_schedule_distinct [OF d l r f i'] i c
  have "h (Url (fst call)) = exec_accesses (Pending (spawn thr call)) (h0 (Url (fst call)))"
    by (simp add: key)
  also have "\<dots> = snd (checkEndpointHealth (fst call) (h0 (Url (fst call))) thr (snd call))"
    by (cases call) (simp add: spawn_def exec_accesses_of)
  finally show ?thesis by (simp add: r)
qed

text \<open>
  Claim C3, amended. When the probes of a cycle are for pairwise distinct URLs, then
  under every schedule that lets all of them finish, the record of each URL is the one
  that \<^verbatim>\<open>checkEndpointHealth\<close> alone produces from the record before the cycle: no
  increment and no latency update is lost.
\<close>

theorem distinct_urls_no_lost_update:
  assumes "distinct (map (\<lambda>call. Url (fst call)) calls)"
    and "finished (fst (run_schedule sched (map (spawn thr) calls, h0)))"
  shows "\<forall>call\<in>set calls.
           snd (run_schedule sched (map (spawn thr) calls, h0)) (Url (fst call)) =
             snd (checkEndpointHealth (fst call) (h0 (Url (fst call))) thr (snd call))"
  using schedule_distinct_urls [OF assms] by blast

lemma spawn_distinct_url_cycle:
  "map (spawn 500000000) distinct_url_cycle =
     [\<lparr>Key = ''http://a.test/health'', Loaded = None, Pending = success_accesses 100000000\<rparr>,
      \<lparr>Key = ''http://b.test/'', Loaded = None, Pending = failure_accesses\<rparr>]"
  by (simp add: distinct_url_cycle_def spawn_def accesses_of_def outcome_UP_iff response_ok_def
      example_req_def other_req_def world_transport_error_def world_status_def
      default_method_def build_request_def)

theorem distinct_urls_no_lost_update_witness:
  "distinct (map (\<lambda>call. Url (fst call)) distinct_url_cycle) \<and>
   finished (fst (run_schedule [0, 1, 0, 0, 1, 0, 0, 0, 0, 0]
      (map (spawn 500000000) distinct_url_cycle, fresh_heap))) \<and>
   snd (run_schedule [0, 1, 0, 0, 1, 0, 0, 0, 0, 0]
      (map (spawn 500000000) distinct_url_cycle, fresh_heap)) ''http://a.test/health'' =
     \<lparr>SuccessCount = 1, FailureCount = 0, TotalLatency = 100000000,
      MinLatency = 100000000, MaxLatency = 100000000\<rparr> \<and>
   snd (run_schedule [0, 1, 0, 0, 1, 0, 0, 0, 0, 0]
      (map (spawn 500000000) distinct_url_cycle, fresh_heap)) ''http://b.test/'' =
     \<lparr>SuccessCount = 0, FailureCount = 1, TotalLatency = 0, MinLatency = 0, MaxLatency = 0\<rparr>"
proof -
  have d: "distinct (map (\<lambda>call. Url (fst call)) distinct_url_cycle)"
    by (simp add: distinct_url_cycle_def example_req_def other_req_def)
  have "fst (run_schedule [0, 1, 0, 0, 1, 0, 0, 0, 0, 0]
      (map (spawn 500000000) distinct_url_cycle, fresh_heap)) =
     [\<lparr>Key = ''http://a.test/health'', Loaded = None, Pending = []\<rparr>,
      \<lparr>Key = ''http://b.test/'', Loaded = None, Pending = []\<rparr>]"
    by (simp add: spawn_distinct_url_cycle run_schedule_def sched_step_def step_def
        failure_accesses_def success_accesses_def)
  then have f: "finished (fst (run_schedule [0, 1, 0, 0, 1, 0, 0, 0, 0, 0]
      (map (spawn 500000000) distinct_url_cycle, fresh_heap)))"
    by (simp add: finished_def)
  from distinct_urls_no_lost_update [OF d f] d f show ?thesis
    by (simp add: distinct_url_cycle_def example_req_def other_req_def fresh_heap_def
        checkEndpointHealth_def world_status_def world_transport_error_def default_method_def
        build_request_def record_success_def record_failure_def zero_Availability_def Let_def)
qed

lemma spawn_same_url_failures:
  "map (spawn 500000000) same_url_failures =
     [\<lparr>Key = ''http://a.test/health'', Loaded = None, Pending = failure_accesses\<rparr>,
      \<lparr>Key = ''http://a.test/health'', Loaded = None, Pending = failure_accesses\<rparr>]"
  by (simp add: same_url_failures_def spawn_def accesses_of_def outcome_UP_iff response_ok_def
      example_req_def example_req_alias_def world_transport_error_def world_status_def
      default_method_def build_request_def)

text \<open>
  Claim C3 as stated fails for two probes of the same URL. Both goroutines read
  \<open>FailureCount = 0\<close> before either writes, both write 1, and one of the two
  increments is lost: run one after the other, the two probes leave 2.
\<close>

theorem same_url_lost_update:
  "finished (fst (run_schedule [0, 1, 0, 1]
      (map (spawn 500000000) same_url_failures, fresh_heap))) \<and>
   FailureCount (snd (run_schedule [0, 1, 0, 1]
      (map (spawn 500000000) same_url_failures, fresh_heap)) ''http://a.test/health'') = 1 \<and>
   FailureCount (record_probes 500000000 same_url_failures zero_Availability) = 2"
proof -
  have run: "run_schedule [0, 1, 0, 1] (map (spawn 500000000) same_url_failures, fresh_heap) =
     ([\<lparr>Key = ''http://a.test/health'', Loaded = None, Pending = []\<rparr>,
       \<lparr>Key = ''http://a.test/health'', Loaded = None, Pending = []\<rparr>],
      fresh_heap(''http://a.test/health'' :=
        \<lparr>SuccessCount = 0, FailureCount = 1, TotalLatency = 0, MinLatency = 0, MaxLatency = 0\<rparr>))"
    by (simp add: spawn_same_url_failures run_schedule_def sched_step_def step_def
        failure_accesses_def fresh_heap_def zero_Availability_def)
  have seq: "record_probes 500000000 same_url_failures zero_Availability =
     \<lparr>SuccessCount = 0, FailureCount = 2, TotalLatency = 0, MinLatency = 0, MaxLatency = 0\<rparr>"
    by (simp add: same_url_failures_def record_probes_def checkEndpointHealth_def
        example_req_def example_req_alias_def world_transport_error_def world_status_def
        default_method_def build_request_def record_failure_def zero_Availability_def Let_def)
  show ?thesis unfolding run seq by (simp add: finished_def)
qed

section \<open>Cycles\<close>










lemma calls_for_append: "calls_for u (xs @ ys) = calls_for u xs @ calls_for u ys"
  by (simp add: calls_for_def)
















section \<open>Counting probes\<close>



lemma record_probes_append:
  "record_probes thr (xs @ ys) a = record_probes thr ys (record_probes thr xs a)"
  by (simp add: record_probes_def)




section \<open>Latency extrema\<close>














end
